theory Spec2Isabelle
  imports Main "HOL-Library.Word"
begin

unbundle bit_operations_syntax

section \<open>The log subscriber: data model\<close>

text \<open>
  The subscriber program (package main with \<^verbatim>\<open>parseLogEvent\<close>) receives
  \<^verbatim>\<open>types.Log\<close> values from a subscription and prints what it decodes.
  A \<^verbatim>\<open>common.Hash\<close> is a \<^verbatim>\<open>[32]byte\<close> and a \<^verbatim>\<open>common.Address\<close> a
  \<^verbatim>\<open>[20]byte\<close>; both are byte lists here, and reading a byte outside the list is a
  panic value, so that a word of the wrong size cannot be decoded silently.
\<close>

type_synonym byte = "8 word"
type_synonym Hash = "byte list"
type_synonym Address = "byte list"
type_synonym timestamp = string

datatype panic = IndexOutOfRange nat nat | NonPositiveInterval

text \<open>The fields of \<^verbatim>\<open>types.Log\<close> that \<^verbatim>\<open>parseLogEvent\<close> reads.\<close>

record Log =
  Address :: Address
  Topics :: "Hash list"
  Data :: "byte list"
  BlockNumber :: "64 word"
  TxHash :: Hash
  Index :: "64 word"

text \<open>The type tags of go-ethereum's \<^verbatim>\<open>accounts/abi\<close>, in the order of its constants.\<close>

datatype abi_T =
    IntTy | UintTy | BoolTy | StringTy | SliceTy | ArrayTy | TupleTy
  | AddressTy | FixedBytesTy | BytesTy | HashTy | FixedPointTy | FunctionTy

record Type =
  T :: abi_T
  stringKind :: string

record Argument =
  Name :: string
  Type :: Type
  Indexed :: bool

record Event =
  Sig :: string
  Inputs :: "Argument list"

text \<open>
  \<^verbatim>\<open>parsedABI.Events\<close> is a Go map from event name to event. The list gives its
  entries in the order in which one \<^verbatim>\<open>range\<close> over the map visits them; Go fixes no such
  order, so every theorem below holds for any order.
\<close>

record ABI =
  Events :: "(string \<times> Event) list"

text \<open>The values that \<^verbatim>\<open>Unpack\<close> returns, as far as the type switch tells them apart.\<close>

datatype go_value =
    BigInt int
  | AddressValue Address
  | ByteSlice "byte list"
  | OtherValue string

text \<open>
  What the program does not define itself: the Keccak-256 digest of a signature string
  and the ABI decoder \<^verbatim>\<open>parsedABI.Unpack\<close> of go-ethereum. They are parameters.
\<close>

record externals =
  Keccak256Hash :: "string \<Rightarrow> Hash"
  Unpack :: "ABI \<Rightarrow> string \<Rightarrow> byte list \<Rightarrow> string + go_value list"

section \<open>Printed output\<close>

text \<open>
  Every \<^verbatim>\<open>Printf\<close> of \<^verbatim>\<open>parseLogEvent\<close> is one constructor, carrying the values
  it formats. Rendering (\<^verbatim>\<open>Hex()\<close>, \<^verbatim>\<open>String()\<close>, \<^verbatim>\<open>%d\<close>) is left to the reader
  of the value.
\<close>

datatype topic_value =
    AddressHex Address
  | BigIntString int
  | BoolValue bool
  | HashHex Hash
  | HashHexRaw Hash

datatype data_value =
    BigIntDecimal int
  | AddressValueHex Address
  | BytesHex "byte list"
  | DefaultFormat go_value

datatype out_line =
    UnknownEvent timestamp "64 word" Hash Hash
  | Separator
  | EventLine timestamp string
  | BlockNumberLine "64 word"
  | TxHashLine Hash
  | LogIndexLine "64 word"
  | ContractLine Address
  | TopicsCountLine nat
  | IndexedHeading
  | IndexedParam nat string Type topic_value
  | NonIndexedHeading
  | DecodeError string
  | NonIndexedParam nat string Type data_value
  | NonIndexedNone
  | Footer

section \<open>Decoding one topic word\<close>

text \<open>\<^verbatim>\<open>common.BytesToAddress\<close>: the last 20 bytes, left-padded with zeros.\<close>

definition BytesToAddress :: "byte list \<Rightarrow> Address" where
  "BytesToAddress b =
     (if length b > 20 then drop (length b - 20) b
      else replicate (20 - length b) 0 @ b)"

text \<open>\<^verbatim>\<open>(*big.Int).SetBytes\<close>: the bytes read as a big-endian unsigned integer.\<close>

definition SetBytes :: "byte list \<Rightarrow> int" where
  "SetBytes buf = foldl (\<lambda>z b. z * 256 + uint b) 0 buf"

definition index_byte :: "Hash \<Rightarrow> nat \<Rightarrow> panic + byte" where
  "index_byte h i =
     (if i < length h then Inr (h ! i) else Inl (IndexOutOfRange i (length h)))"

text \<open>The \<^verbatim>\<open>switch input.Type.T\<close> of \<^verbatim>\<open>parseLogEvent\<close>, case by case.\<close>

fun decodeTopic :: "abi_T \<Rightarrow> Hash \<Rightarrow> panic + topic_value" where
  "decodeTopic AddressTy topic = Inr (AddressHex (BytesToAddress topic))"
| "decodeTopic IntTy topic = Inr (BigIntString (SetBytes topic))"
| "decodeTopic UintTy topic = Inr (BigIntString (SetBytes topic))"
| "decodeTopic BoolTy topic =
     (case index_byte topic 31 of
        Inl p \<Rightarrow> Inl p
      | Inr b \<Rightarrow> Inr (BoolValue (b \<noteq> 0)))"
| "decodeTopic BytesTy topic = Inr (HashHex topic)"
| "decodeTopic FixedBytesTy topic = Inr (HashHex topic)"
| "decodeTopic _ topic = Inr (HashHexRaw topic)"

section \<open>parseLogEvent\<close>

text \<open>
  The search for the event whose signature digest is \<^verbatim>\<open>Topics[0]\<close>. The variables
  \<^verbatim>\<open>eventName\<close> and \<^verbatim>\<open>eventSig\<close> start at their zero values and are set at the first
  match, where the loop breaks.
\<close>

fun find_event :: "(string \<Rightarrow> Hash) \<Rightarrow> Hash \<Rightarrow> (string \<times> Event) list \<Rightarrow> string \<times> Event" where
  "find_event keccak eventTopic [] = ('''', \<lparr>Sig = '''', Inputs = []\<rparr>)"
| "find_event keccak eventTopic ((name, event) # rest) =
     (if keccak (Sig event) = eventTopic then (name, event)
      else find_event keccak eventTopic rest)"

text \<open>
  The loop over \<^verbatim>\<open>eventSig.Inputs\<close> that prints the indexed parameters: \<open>i\<close> is the
  position of the input, \<open>indexedParamIndex\<close> counts the indexed inputs seen so far.
\<close>

fun indexed_params :: "Hash list \<Rightarrow> nat \<Rightarrow> nat \<Rightarrow> Argument list \<Rightarrow> panic + out_line list" where
  "indexed_params topics i indexedParamIndex [] = Inr []"
| "indexed_params topics i indexedParamIndex (input # rest) =
     (if \<not> Indexed input then indexed_params topics (i + 1) indexedParamIndex rest
      else
        let topicIndex = 1 + indexedParamIndex in
        if topicIndex \<ge> length topics
        then indexed_params topics (i + 1) (indexedParamIndex + 1) rest
        else
          (case decodeTopic (T (Type input)) (topics ! topicIndex) of
             Inl p \<Rightarrow> Inl p
           | Inr v \<Rightarrow>
               (case indexed_params topics (i + 1) (indexedParamIndex + 1) rest of
                  Inl p \<Rightarrow> Inl p
                | Inr ls \<Rightarrow> Inr (IndexedParam (i + 1) (Name input) (Type input) v # ls))))"

text \<open>The type switch on a decoded value.\<close>

fun format_value :: "go_value \<Rightarrow> data_value" where
  "format_value (BigInt v) = BigIntDecimal v"
| "format_value (AddressValue v) = AddressValueHex v"
| "format_value (ByteSlice v) = BytesHex v"
| "format_value v = DefaultFormat v"

text \<open>The loop that prints the decoded non-indexed parameters.\<close>

fun print_values :: "go_value list \<Rightarrow> nat \<Rightarrow> nat \<Rightarrow> Argument list \<Rightarrow> out_line list" where
  "print_values values i nonIndexedIdx [] = []"
| "print_values values i nonIndexedIdx (input # rest) =
     (if \<not> Indexed input then
        (if nonIndexedIdx < length values
         then NonIndexedParam (i + 1) (Name input) (Type input)
                (format_value (values ! nonIndexedIdx))
              # print_values values (i + 1) (nonIndexedIdx + 1) rest
         else print_values values (i + 1) nonIndexedIdx rest)
      else print_values values (i + 1) nonIndexedIdx rest)"

text \<open>Step 4 of \<^verbatim>\<open>parseLogEvent\<close>: the \<^verbatim>\<open>Data\<close> field.\<close>

definition non_indexed_params :: "externals \<Rightarrow> Log \<Rightarrow> ABI \<Rightarrow> string \<Rightarrow> Event \<Rightarrow> out_line list" where
  "non_indexed_params ext vLog parsedABI eventName eventSig =
     (if length (Data vLog) > 0 then
        NonIndexedHeading #
        (let nonIndexedInputs = filter (\<lambda>input. \<not> Indexed input) (Inputs eventSig) in
         if length nonIndexedInputs > 0 then
           (case Unpack ext parsedABI eventName (Data vLog) of
              Inl err \<Rightarrow> [DecodeError err]
            | Inr values \<Rightarrow> print_values values 0 0 (Inputs eventSig))
         else [])
      else [NonIndexedNone])"

text \<open>
  \<^verbatim>\<open>parseLogEvent\<close>. \<open>now\<close> is what \<^verbatim>\<open>time.Now()\<close> returns in this call (each
  path reads the clock once). The result is the list of lines printed, or the panic
  that ends the program.
\<close>

definition parseLogEvent :: "externals \<Rightarrow> timestamp \<Rightarrow> Log \<Rightarrow> ABI \<Rightarrow> panic + out_line list" where
  "parseLogEvent ext now vLog parsedABI =
     (if length (Topics vLog) = 0 then Inr []
      else
        let eventTopic = Topics vLog ! 0;
            (eventName, eventSig) = find_event (Keccak256Hash ext) eventTopic (Events parsedABI)
        in
        if eventName = '''' then
          Inr [UnknownEvent now (BlockNumber vLog) (TxHash vLog) eventTopic]
        else
          (case indexed_params (Topics vLog) 0 0 (Inputs eventSig) of
             Inl p \<Rightarrow> Inl p
           | Inr indexed \<Rightarrow>
               Inr ([Separator,
                     EventLine now eventName,
                     BlockNumberLine (BlockNumber vLog),
                     TxHashLine (TxHash vLog),
                     LogIndexLine (Index vLog),
                     ContractLine (Address vLog),
                     TopicsCountLine (length (Topics vLog)),
                     IndexedHeading]
                    @ indexed
                    @ non_indexed_params ext vLog parsedABI eventName eventSig
                    @ [Footer])))"

section \<open>The event loop of main\<close>

text \<open>
  One element per iteration of the \<^verbatim>\<open>for { select { ... } }\<close> loop: the case that the
  \<^verbatim>\<open>select\<close> took. Which case is taken when several channels are ready is the
  runtime's choice; the list is that choice, made.
\<close>

datatype select_case =
    LogsCh Log
  | SubErr string
  | SigCh string
  | CtxDone

datatype main_out =
    EventOutput out_line
  | LogSubscriptionError string
  | PrintSignal string
  | PrintContextCancelled

text \<open>
  How the loop stands when the list is used up: still waiting in \<^verbatim>\<open>select\<close>, returned
  from \<^verbatim>\<open>main\<close>, or ended by a panic.
\<close>

datatype loop_status = Selecting | Returned | Panicked panic

text \<open>\<open>clock k\<close> is the reading of \<^verbatim>\<open>time.Now()\<close> in iteration \<open>k\<close>.\<close>

fun main_loop ::
  "externals \<Rightarrow> (nat \<Rightarrow> timestamp) \<Rightarrow> ABI \<Rightarrow> nat \<Rightarrow> select_case list \<Rightarrow> main_out list \<times> loop_status" where
  "main_loop ext clock parsedABI k [] = ([], Selecting)"
| "main_loop ext clock parsedABI k (LogsCh vLog # es) =
     (case parseLogEvent ext (clock k) vLog parsedABI of
        Inl p \<Rightarrow> ([], Panicked p)
      | Inr ls \<Rightarrow>
          (let (out, st) = main_loop ext clock parsedABI (Suc k) es
           in (map EventOutput ls @ out, st)))"
| "main_loop ext clock parsedABI k (SubErr err # es) = ([LogSubscriptionError err], Returned)"
| "main_loop ext clock parsedABI k (SigCh sig # es) = ([PrintSignal sig], Returned)"
| "main_loop ext clock parsedABI k (CtxDone # es) = ([PrintContextCancelled], Returned)"

text \<open>The cases of the \<^verbatim>\<open>select\<close> that end the loop.\<close>

fun is_shutdown :: "select_case \<Rightarrow> bool" where
  "is_shutdown (LogsCh vLog) = False"
| "is_shutdown (SubErr err) = True"
| "is_shutdown (SigCh sig) = True"
| "is_shutdown CtxDone = True"

text \<open>A log as Go's types allow it: every topic is a 32-byte word.\<close>

definition wf_log :: "Log \<Rightarrow> bool" where
  "wf_log vLog = list_all (\<lambda>topic. length topic = 32) (Topics vLog)"

text \<open>The lines that the loop over the indexed parameters prints.\<close>

fun is_IndexedParam :: "out_line \<Rightarrow> bool" where
  "is_IndexedParam (IndexedParam i n t v) = True"
| "is_IndexedParam _ = False"

text \<open>An iteration that leaves the loop running: a well-formed log arrives.\<close>

fun running_case :: "select_case \<Rightarrow> bool" where
  "running_case (LogsCh vLog) = wf_log vLog"
| "running_case _ = False"

section \<open>The block fetcher: fetchBlockWithRetry\<close>

text \<open>
  A \<^verbatim>\<open>time.Duration\<close> is an \<^verbatim>\<open>int64\<close> count of nanoseconds; its arithmetic wraps.
  The node is a parameter: \<open>client blockNumber i\<close> is what \<^verbatim>\<open>client.BlockByNumber\<close>
  returns in attempt \<open>i\<close> (from 0) of one call of \<^verbatim>\<open>fetchBlockWithRetry\<close> for that
  block number, an error message or a block.
\<close>

type_synonym Duration = "64 word"
type_synonym 'b client = "int \<Rightarrow> nat \<Rightarrow> string + 'b"

text \<open>
  \<^verbatim>\<open>fmt.Errorf("failed after %d retries: %w", maxRetries, lastErr)\<close>: the error that
  wraps \<^verbatim>\<open>lastErr\<close>, which is nil (\<open>None\<close>) when no attempt was made.
\<close>

datatype fetch_error = FailedAfter int "string option"

text \<open>What the fetcher does, in order: calls, sleeps and printed or logged lines.\<close>

datatype 'b fetch_event =
    WithTimeout Duration
  | BlockByNumber int
  | CancelRequest
  | LogWarn int int int Duration string
  | Sleep Duration
  | PrintRangeHeader "64 word" "64 word"
  | PrintRateLimit Duration
  | NewTicker Duration
  | TickerWait
  | TickerStop
  | LogError "64 word" fetch_error
  | PrintBlockInfo "64 word" 'b
  | LogCancelled "64 word"
  | PrintSummaryHeading
  | PrintSuccess "64 word"
  | PrintSkipped "64 word"
  | PrintTotal "64 word"

text \<open>
  One attempt: a request context with its own 10 second timeout, the call, and the
  release of the context.
\<close>

definition attempt_call :: "int \<Rightarrow> 'b fetch_event list" where
  "attempt_call blockNumber =
     [WithTimeout (10 * 1000000000), BlockByNumber blockNumber, CancelRequest]"

text \<open>The \<^verbatim>\<open>for i := 0; i < maxRetries; i++\<close> loop, from a given \<open>i\<close> and \<open>lastErr\<close>.\<close>

function retry_loop ::
  "'b client \<Rightarrow> int \<Rightarrow> int \<Rightarrow> int \<Rightarrow> string option \<Rightarrow> (fetch_error + 'b) \<times> 'b fetch_event list" where
  "retry_loop client blockNumber maxRetries i lastErr =
     (if i < maxRetries then
        (case client blockNumber (nat i) of
           Inr block \<Rightarrow> (Inr block, attempt_call blockNumber)
         | Inl err \<Rightarrow>
             (let waits =
                    (if i < maxRetries - 1 then
                       (let backoff = word_of_int (i + 1) * 500 * 1000000 in
                        [LogWarn blockNumber (i + 1) maxRetries backoff err, Sleep backoff])
                     else []);
                  (r, evs) = retry_loop client blockNumber maxRetries (i + 1) (Some err)
              in (r, attempt_call blockNumber @ waits @ evs)))
      else (Inl (FailedAfter maxRetries lastErr), []))"
  by pat_completeness auto
termination
  by (relation "measure (\<lambda>(client, blockNumber, maxRetries, i, lastErr). nat (maxRetries - i))")
     auto

declare retry_loop.simps [simp del]

definition fetchBlockWithRetry ::
  "'b client \<Rightarrow> int \<Rightarrow> int \<Rightarrow> (fetch_error + 'b) \<times> 'b fetch_event list" where
  "fetchBlockWithRetry client blockNumber maxRetries =
     retry_loop client blockNumber maxRetries 0 None"

section \<open>The block fetcher: fetchBlockRange\<close>

text \<open>
  The \<^verbatim>\<open>for num := start; num <= end; num++\<close> loop. \<open>num\<close> is a \<^verbatim>\<open>uint64\<close> and
  wraps, so the loop need not end: \<open>None\<close> is a run that never returns. \<open>ctxDone num\<close>
  says whether \<^verbatim>\<open>ctx.Done()\<close> is ready at the check after the block \<open>num\<close> was
  fetched. \<open>out\<close> is what has been done so far.
\<close>

partial_function (option) range_loop ::
  "'b client \<Rightarrow> (64 word \<Rightarrow> bool) \<Rightarrow> 64 word \<Rightarrow> 64 word \<Rightarrow> 64 word \<Rightarrow> 64 word \<Rightarrow> 64 word
     \<Rightarrow> 'b fetch_event list \<Rightarrow> 'b fetch_event list option" where
  "range_loop client ctxDone start end' num successCount skipCount out =
     (if num \<le> end' then
        (case fetchBlockWithRetry client (uint num) 2 of
           (Inl err, evs) \<Rightarrow>
             range_loop client ctxDone start end' (num + 1) successCount (skipCount + 1)
               (out @ TickerWait # evs @ [LogError num err])
         | (Inr block, evs) \<Rightarrow>
             if ctxDone num then
               Some (out @ TickerWait # evs
                         @ [PrintBlockInfo num block, LogCancelled num, TickerStop])
             else
               range_loop client ctxDone start end' (num + 1) (successCount + 1) skipCount
                 (out @ TickerWait # evs @ [PrintBlockInfo num block]))
      else
        Some (out @ [PrintSummaryHeading, PrintSuccess successCount, PrintSkipped skipCount,
                     PrintTotal (end' - start + 1), TickerStop]))"

text \<open>
  \<^verbatim>\<open>fetchBlockRange\<close>. \<^verbatim>\<open>time.NewTicker\<close> panics on an interval that is not
  positive; the two lines printed before it are not kept with the panic. The result is
  \<open>None\<close> when the loop never ends, else the panic or the events of the run, the last
  of which is the deferred stop of the ticker.
\<close>

definition fetchBlockRange ::
  "'b client \<Rightarrow> (64 word \<Rightarrow> bool) \<Rightarrow> 64 word \<Rightarrow> 64 word \<Rightarrow> Duration
     \<Rightarrow> (panic + 'b fetch_event list) option" where
  "fetchBlockRange client ctxDone start end' rateLimit =
     (if sint rateLimit \<le> 0 then Some (Inl NonPositiveInterval)
      else
        map_option Inr
          (range_loop client ctxDone start end' start 0 0
             [PrintRangeHeader start end', PrintRateLimit rateLimit, NewTicker rateLimit]))"

section \<open>Reading a run\<close>

definition trace_of :: "(panic + 'b fetch_event list) option \<Rightarrow> 'b fetch_event list" where
  "trace_of r = (case r of Some (Inr tr) \<Rightarrow> tr | _ \<Rightarrow> [])"

text \<open>The number of calls of \<^verbatim>\<open>BlockByNumber\<close> for one block number.\<close>

fun is_call_at :: "int \<Rightarrow> 'b fetch_event \<Rightarrow> bool" where
  "is_call_at h (BlockByNumber h') = (h = h')"
| "is_call_at h _ = False"

definition attempts_at :: "'b fetch_event list \<Rightarrow> int \<Rightarrow> nat" where
  "attempts_at tr h = length (filter (is_call_at h) tr)"

fun is_call :: "'b fetch_event \<Rightarrow> bool" where
  "is_call (BlockByNumber h) = True"
| "is_call _ = False"

definition attempts :: "'b fetch_event list \<Rightarrow> nat" where
  "attempts tr = length (filter is_call tr)"

text \<open>The durations slept, as signed nanoseconds, in order.\<close>

fun sleep_of :: "'b fetch_event \<Rightarrow> int list" where
  "sleep_of (Sleep d) = [sint d]"
| "sleep_of _ = []"

definition sleeps :: "'b fetch_event list \<Rightarrow> int list" where
  "sleeps tr = concat (map sleep_of tr)"

text \<open>The timeouts of the request contexts, as signed nanoseconds, in order.\<close>

fun timeout_of :: "'b fetch_event \<Rightarrow> int list" where
  "timeout_of (WithTimeout d) = [sint d]"
| "timeout_of _ = []"

definition timeouts :: "'b fetch_event list \<Rightarrow> int list" where
  "timeouts tr = concat (map timeout_of tr)"

text \<open>The lines of the summary block.\<close>

fun is_summary_line :: "'b fetch_event \<Rightarrow> bool" where
  "is_summary_line PrintSummaryHeading = True"
| "is_summary_line (PrintSuccess n) = True"
| "is_summary_line (PrintSkipped n) = True"
| "is_summary_line (PrintTotal n) = True"
| "is_summary_line _ = False"

definition summary_lines :: "'b fetch_event list \<Rightarrow> 'b fetch_event list" where
  "summary_lines tr = filter is_summary_line tr"

text \<open>The events that one call of \<^verbatim>\<open>fetchBlockWithRetry\<close> for block \<open>h\<close> can add.\<close>

fun retry_event :: "int \<Rightarrow> 'b fetch_event \<Rightarrow> bool" where
  "retry_event h (WithTimeout d) = True"
| "retry_event h (BlockByNumber h') = (h' = h)"
| "retry_event h CancelRequest = True"
| "retry_event h (LogWarn h' i m d err) = True"
| "retry_event h (Sleep d) = True"
| "retry_event h _ = False"

section \<open>The retry policy as the specification words it\<close>

text \<open>
  The specification's linear backoff: after failed attempt number \<open>attemptIndex\<close>
  (from 1) the fetcher sleeps \<open>attemptIndex * baseBackoff\<close>, with a base of 500 ms,
  here in nanoseconds.
\<close>

definition spec_backoff :: "nat \<Rightarrow> int" where
  "spec_backoff attemptIndex = int attemptIndex * 500000000"

text \<open>
  A failed attempt that is followed by another: the attempt, the warning and the sleep.
  \<open>j\<close> counts the attempts from 0, so this is attempt number \<open>j + 1\<close>.
\<close>

definition spec_failed_attempt ::
  "int \<Rightarrow> int \<Rightarrow> (nat \<Rightarrow> string) \<Rightarrow> nat \<Rightarrow> 'b fetch_event list" where
  "spec_failed_attempt blockNumber maxRetries e j =
     attempt_call blockNumber
     @ [LogWarn blockNumber (int j + 1) maxRetries (word_of_int (spec_backoff (j + 1))) (e j),
        Sleep (word_of_int (spec_backoff (j + 1)))]"

text \<open>
  The events of a fetch whose first \<open>k\<close> attempts fail with the errors \<open>e 0, e 1, ...\<close>:
  every failed attempt that is not the last allowed one is followed by the warning and
  the sleep, and one more attempt ends the fetch.
\<close>

definition spec_retry_trace ::
  "int \<Rightarrow> int \<Rightarrow> (nat \<Rightarrow> string) \<Rightarrow> nat \<Rightarrow> 'b fetch_event list" where
  "spec_retry_trace blockNumber maxRetries e k =
     concat (map (spec_failed_attempt blockNumber maxRetries e)
               [0 ..< min k (nat maxRetries - 1)])
     @ attempt_call blockNumber"

section \<open>Example inputs\<close>

text \<open>
  The ABI of \<^verbatim>\<open>erc20ABIJSON\<close>, the digests of its two signatures, and a decoder that
  accepts a payload of one 32-byte word.
\<close>

definition address_type :: Type where
  "address_type = \<lparr>T = AddressTy, stringKind = ''address''\<rparr>"

definition uint256_type :: Type where
  "uint256_type = \<lparr>T = UintTy, stringKind = ''uint256''\<rparr>"

definition transfer_event :: Event where
  "transfer_event =
     \<lparr>Sig = ''Transfer(address,address,uint256)'',
      Inputs = [\<lparr>Name = ''from'', Type = address_type, Indexed = True\<rparr>,
                \<lparr>Name = ''to'', Type = address_type, Indexed = True\<rparr>,
                \<lparr>Name = ''value'', Type = uint256_type, Indexed = False\<rparr>]\<rparr>"

definition approval_event :: Event where
  "approval_event =
     \<lparr>Sig = ''Approval(address,address,uint256)'',
      Inputs = [\<lparr>Name = ''owner'', Type = address_type, Indexed = True\<rparr>,
                \<lparr>Name = ''spender'', Type = address_type, Indexed = True\<rparr>,
                \<lparr>Name = ''value'', Type = uint256_type, Indexed = False\<rparr>]\<rparr>"

definition erc20ABI :: ABI where
  "erc20ABI = \<lparr>Events = [(''Transfer'', transfer_event), (''Approval'', approval_event)]\<rparr>"

definition transfer_topic :: Hash where
  "transfer_topic =
     [0xdd, 0xf2, 0x52, 0xad, 0x1b, 0xe2, 0xc8, 0x9b, 0x69, 0xc2, 0xb0, 0x68, 0xfc, 0x37, 0x8d, 0xaa,
      0x95, 0x2b, 0xa7, 0xf1, 0x63, 0xc4, 0xa1, 0x16, 0x28, 0xf5, 0x5a, 0x4d, 0xf5, 0x23, 0xb3, 0xef]"

definition approval_topic :: Hash where
  "approval_topic =
     [0x8c, 0x5b, 0xe1, 0xe5, 0xeb, 0xec, 0x7d, 0x5b, 0xd1, 0x4f, 0x71, 0x42, 0x7d, 0x1e, 0x84, 0xf3,
      0xdd, 0x03, 0x14, 0xc0, 0xf7, 0xb2, 0x29, 0x1e, 0x5b, 0x20, 0x0a, 0xc8, 0xc7, 0xc3, 0xb9, 0x25]"

definition erc20_digest :: "string \<Rightarrow> Hash" where
  "erc20_digest s =
     (if s = ''Transfer(address,address,uint256)'' then transfer_topic
      else if s = ''Approval(address,address,uint256)'' then approval_topic
      else replicate 32 0)"

definition one_word_unpack :: "ABI \<Rightarrow> string \<Rightarrow> byte list \<Rightarrow> string + go_value list" where
  "one_word_unpack parsedABI name data =
     (if length data = 32 then Inr [BigInt (SetBytes data)]
      else Inl ''abi: improperly formatted output'')"

definition example_ext :: externals where
  "example_ext = \<lparr>Keccak256Hash = erc20_digest, Unpack = one_word_unpack\<rparr>"

definition word_of_address :: "byte \<Rightarrow> Hash" where
  "word_of_address b = replicate 31 0 @ [b]"

definition example_log :: "Hash list \<Rightarrow> byte list \<Rightarrow> Log" where
  "example_log topics data =
     \<lparr>Address = replicate 20 0x11, Topics = topics, Data = data,
      BlockNumber = 19000000, TxHash = replicate 32 0xab, Index = 3\<rparr>"

definition example_clock :: "nat \<Rightarrow> timestamp" where
  "example_clock k = (if k = 0 then ''2024-01-01T00:00:00Z'' else ''2024-01-01T00:00:12Z'')"

text \<open>A node that fails at block 102 on every attempt and serves every other block.\<close>

definition failing_102 :: "int client" where
  "failing_102 blockNumber i =
     (if blockNumber = 102 then Inl ''timeout'' else Inr blockNumber)"

text \<open>A node that serves every block at the first attempt.\<close>

definition serving :: "int client" where
  "serving blockNumber i = Inr blockNumber"

text \<open>A node that serves block 7 at its third attempt.\<close>

definition third_time :: "int client" where
  "third_time blockNumber i = (if i < 2 then Inl ''timeout'' else Inr blockNumber)"

section \<open>Helper lemmas on parseLogEvent\<close>

lemma find_event_no_match:
  "\<forall>(name, event) \<in> set evs. keccak (Sig event) \<noteq> eventTopic \<Longrightarrow>
   find_event keccak eventTopic evs = ('''', \<lparr>Sig = '''', Inputs = []\<rparr>)"
  by (induction evs) auto

lemma decodeTopic_no_panic:
  "length topic = 32 \<Longrightarrow> \<exists>v. decodeTopic ty topic = Inr v"
  by (cases ty) (simp_all add: index_byte_def)

lemma indexed_params_no_panic:
  "list_all (\<lambda>topic. length topic = 32) topics \<Longrightarrow>
   \<exists>ls. indexed_params topics i k inputs = Inr ls"
proof (induction inputs arbitrary: i k)
  case Nil
  then show ?case by simp
next
  case (Cons input rest)
  show ?case
  proof (cases "Indexed input \<and> 1 + k < length topics")
    case True
    then have "length (topics ! (1 + k)) = 32"
      using Cons.prems by (simp add: list_all_length)
    then obtain v where v: "decodeTopic (T (Type input)) (topics ! (1 + k)) = Inr v"
      using decodeTopic_no_panic by blast
    obtain ls where "indexed_params topics (i + 1) (k + 1) rest = Inr ls"
      using Cons.IH [OF Cons.prems] by blast
    with v True show ?thesis by simp
  next
    case False
    then show ?thesis using Cons.IH [OF Cons.prems] by auto
  qed
qed

lemma indexed_params_lines:
  "indexed_params topics i k inputs = Inr ls \<Longrightarrow> list_all is_IndexedParam ls"
proof (induction inputs arbitrary: i k ls)
  case Nil
  then show ?case by simp
next
  case (Cons input rest)
  then show ?case
    by (auto simp: Let_def split: if_splits sum.splits)
qed

lemma parseLogEvent_no_panic:
  assumes wf: "wf_log vLog"
  shows "\<exists>ls. parseLogEvent ext now vLog parsedABI = Inr ls"
proof -
  obtain name ev where
    fe: "find_event (Keccak256Hash ext) (Topics vLog ! 0) (Events parsedABI) = (name, ev)"
    by (cases "find_event (Keccak256Hash ext) (Topics vLog ! 0) (Events parsedABI)")
  obtain ls where "indexed_params (Topics vLog) 0 0 (Inputs ev) = Inr ls"
    using indexed_params_no_panic wf unfolding wf_log_def by blast
  with fe show ?thesis by (simp add: parseLogEvent_def)
qed

lemma main_loop_LogsCh:
  "parseLogEvent ext (clock k) vLog parsedABI = Inr ls \<Longrightarrow>
   main_loop ext clock parsedABI k (LogsCh vLog # es)
     = (map EventOutput ls @ fst (main_loop ext clock parsedABI (Suc k) es),
        snd (main_loop ext clock parsedABI (Suc k) es))"
  by (simp split: prod.split)

lemma main_loop_cut:
  "is_shutdown t \<Longrightarrow>
   main_loop ext clock parsedABI k (pre @ t # rest) = main_loop ext clock parsedABI k (pre @ [t])"
proof (induction pre arbitrary: k)
  case Nil
  then show ?case by (cases t) simp_all
next
  case (Cons c pre)
  show ?case
  proof (cases c)
    case (LogsCh vLog)
    then show ?thesis using Cons.IH [OF Cons.prems, of "Suc k"]
      by (simp split: sum.split prod.split)
  qed simp_all
qed

lemma main_loop_returns:
  "is_shutdown t \<Longrightarrow> list_all running_case pre \<Longrightarrow>
   snd (main_loop ext clock parsedABI k (pre @ [t])) = Returned"
proof (induction pre arbitrary: k)
  case Nil
  then show ?case by (cases t) simp_all
next
  case (Cons c pre)
  from Cons.prems(2) obtain vLog where c: "c = LogsCh vLog" and wf: "wf_log vLog"
    by (cases c) simp_all
  obtain ls where p: "parseLogEvent ext (clock k) vLog parsedABI = Inr ls"
    using parseLogEvent_no_panic [OF wf] by blast
  from Cons.prems(2) have "list_all running_case pre" by simp
  from Cons.IH [OF Cons.prems(1) this, of "Suc k"] show ?case
    by (auto simp: c p split: prod.split)
qed

lemma SetBytes_snoc: "SetBytes (bs @ [b]) = SetBytes bs * 256 + uint b"
  by (simp add: SetBytes_def)

lemma SetBytes_bounds: "0 \<le> SetBytes bs \<and> SetBytes bs < 256 ^ length bs"
proof (induction bs rule: rev_induct)
  case Nil
  then show ?case by (simp add: SetBytes_def)
next
  case (snoc b bs)
  have b: "0 \<le> uint b" "uint b < 256"
    using uint_bounded [of b] by simp_all
  from snoc have "SetBytes bs + 1 \<le> 256 ^ length bs" by simp
  then have "(SetBytes bs + 1) * 256 \<le> 256 ^ length bs * 256"
    by (rule mult_right_mono) simp
  with b snoc show ?case by (simp add: SetBytes_snoc algebra_simps)
qed

lemma SetBytes_sum:
  "SetBytes bs = (\<Sum>i<length bs. uint (bs ! i) * 256 ^ (length bs - 1 - i))"
proof (induction bs rule: rev_induct)
  case Nil
  then show ?case by (simp add: SetBytes_def)
next
  case (snoc b bs)
  have "(\<Sum>i<length bs. uint ((bs @ [b]) ! i) * 256 ^ (length bs - i))
        = (\<Sum>i<length bs. uint (bs ! i) * 256 ^ (length bs - 1 - i) * 256)"
  proof (rule sum.cong)
    fix i assume "i \<in> {..<length bs}"
    then have i: "i < length bs" by simp
    then have "length bs - i = Suc (length bs - 1 - i)" by simp
    then show "uint ((bs @ [b]) ! i) * 256 ^ (length bs - i)
               = uint (bs ! i) * 256 ^ (length bs - 1 - i) * 256"
      using i by (simp add: nth_append)
  qed simp
  then show ?case
    by (simp add: SetBytes_snoc snoc.IH sum_distrib_right)
qed

lemma replicate_numeral: "replicate (numeral v) x = x # replicate (pred_numeral v) x"
  by (simp add: numeral_eq_Suc)

lemmas example_defs =
  example_log_def example_ext_def example_clock_def erc20ABI_def erc20_digest_def
  transfer_event_def approval_event_def transfer_topic_def approval_topic_def
  address_type_def uint256_type_def one_word_unpack_def word_of_address_def
  replicate_numeral

section \<open>Helper lemmas on the block fetcher\<close>

lemma backoff_word:
  "(word_of_int (int j + 1) * 500 * 1000000 :: 64 word) = word_of_int (spec_backoff (j + 1))"
proof -
  have "(word_of_int (int j + 1) * 500 * 1000000 :: 64 word)
          = word_of_int (int j + 1) * word_of_int 500000000"
    by simp
  also have "\<dots> = word_of_int ((int j + 1) * 500000000)"
    by (simp only: of_int_mult)
  finally show ?thesis by (simp add: spec_backoff_def)
qed

lemma retry_loop_done:
  "\<not> i < m \<Longrightarrow> retry_loop client h m i le = (Inl (FailedAfter m le), [])"
  by (subst retry_loop.simps) simp

lemma retry_loop_served:
  "i < m \<Longrightarrow> client h (nat i) = Inr b \<Longrightarrow>
   retry_loop client h m i le = (Inr b, attempt_call h)"
  by (subst retry_loop.simps) simp

lemma retry_loop_failed:
  "i < m \<Longrightarrow> client h (nat i) = Inl err \<Longrightarrow>
   retry_loop client h m i le
     = (fst (retry_loop client h m (i + 1) (Some err)),
        attempt_call h
        @ (if i < m - 1
           then [LogWarn h (i + 1) m (word_of_int (i + 1) * 500 * 1000000) err,
                 Sleep (word_of_int (i + 1) * 500 * 1000000)]
           else [])
        @ snd (retry_loop client h m (i + 1) (Some err)))"
  by (subst retry_loop.simps) (simp add: Let_def split: prod.split)

lemma retry_loop_failed_wait:
  assumes "int n < m - 1" and "client h n = Inl (e n)"
  shows "retry_loop client h m (int n) le
           = (fst (retry_loop client h m (int (Suc n)) (Some (e n))),
              spec_failed_attempt h m e n @ snd (retry_loop client h m (int (Suc n)) (Some (e n))))"
proof -
  have i1: "int n + 1 = int (Suc n)" by simp
  have "int n < m" using assms(1) by simp
  from retry_loop_failed [where i = "int n" and m = m and client = client and h = h
      and err = "e n" and le = le, OF this] assms
  show ?thesis
    unfolding backoff_word spec_failed_attempt_def i1 [symmetric] by simp
qed

lemma retry_loop_success:
  assumes "int k < m" and "client h k = Inr b"
  shows "n \<le> k \<Longrightarrow> (\<forall>j. n \<le> j \<and> j < k \<longrightarrow> client h j = Inl (e j)) \<Longrightarrow>
         retry_loop client h m (int n) le
           = (Inr b, concat (map (spec_failed_attempt h m e) [n ..< k]) @ attempt_call h)"
proof (induction "k - n" arbitrary: n le)
  case 0
  then have "n = k" by simp
  with assms show ?case by (simp add: retry_loop_served)
next
  case (Suc d)
  then have nk: "n < k" by simp
  with Suc.prems have f: "client h n = Inl (e n)" by simp
  have d: "d = k - Suc n" using Suc.hyps(2) by simp
  have ih: "retry_loop client h m (int (Suc n)) (Some (e n))
              = (Inr b, concat (map (spec_failed_attempt h m e) [Suc n ..< k]) @ attempt_call h)"
    using Suc.hyps(1) [OF d] nk Suc.prems by simp
  have w: "int n < m - 1" using nk assms(1) by simp
  show ?case
    by (simp only: retry_loop_failed_wait [where e = e and n = n and client = client and h = h and m = m,
          OF w f] ih
          upt_conv_Cons [OF nk])
       simp
qed

lemma retry_loop_exhausted:
  "n < nat m \<Longrightarrow> (\<forall>j. n \<le> j \<and> int j < m \<longrightarrow> client h j = Inl (e j)) \<Longrightarrow>
   retry_loop client h m (int n) le
     = (Inl (FailedAfter m (Some (e (nat m - 1)))),
        concat (map (spec_failed_attempt h m e) [n ..< nat m - 1]) @ attempt_call h)"
proof (induction "nat m - 1 - n" arbitrary: n le)
  case 0
  then have n: "n = nat m - 1" and m: "int n < m" "\<not> int n < m - 1" "\<not> int n + 1 < m"
    by simp_all
  with 0 have f: "client h n = Inl (e n)" by simp
  have "nat (int n) = n" by simp
  with f have f': "client h (nat (int n)) = Inl (e n)" by simp
  show ?case
    by (simp only: retry_loop_failed [where i = "int n" and err = "e n" and client = client and h = h
          and m = m, OF m(1) f']
          retry_loop_done [OF m(3)])
       (simp add: m n)
next
  case (Suc d)
  then have nm: "Suc n < nat m" by simp
  then have w: "int n < m - 1" by simp
  from nm Suc.prems have f: "client h n = Inl (e n)" by simp
  have d: "d = nat m - 1 - Suc n" using Suc.hyps(2) by simp
  have ih: "retry_loop client h m (int (Suc n)) (Some (e n))
              = (Inl (FailedAfter m (Some (e (nat m - 1)))),
                 concat (map (spec_failed_attempt h m e) [Suc n ..< nat m - 1]) @ attempt_call h)"
    using Suc.hyps(1) [OF d nm] Suc.prems by simp
  have lt: "n < nat m - 1" using nm by simp
  show ?case
    by (simp only: retry_loop_failed_wait [where e = e and n = n and client = client and h = h and m = m,
          OF w f] ih
          upt_conv_Cons [OF lt])
       simp
qed

lemma attempts_waits:
  "attempts (concat (map (spec_failed_attempt h m e) js) @ rest) = length js + attempts rest"
  by (induction js) (simp_all add: attempts_def spec_failed_attempt_def attempt_call_def)

lemma sleeps_waits:
  "sleeps (concat (map (spec_failed_attempt h m e) js) @ rest)
     = map (\<lambda>j. sint (word_of_int (spec_backoff (j + 1)) :: 64 word)) js @ sleeps rest"
  by (induction js) (simp_all add: sleeps_def spec_failed_attempt_def attempt_call_def)

lemma timeouts_waits:
  "timeouts (concat (map (spec_failed_attempt h m e) js) @ rest)
     = replicate (length js) 10000000000 @ timeouts rest"
  by (induction js) (simp_all add: timeouts_def spec_failed_attempt_def attempt_call_def)

lemma sint_word_of_int_64:
  "- (2 ^ 63) \<le> x \<Longrightarrow> x < 2 ^ 63 \<Longrightarrow> sint (word_of_int x :: 64 word) = x"
  by (simp add: signed_of_int signed_take_bit_int_eq_self)

lemma sint_backoff:
  "int j + 1 \<le> 18446744073 \<Longrightarrow>
   sint (word_of_int (spec_backoff (j + 1)) :: 64 word) = spec_backoff (j + 1)"
  by (rule sint_word_of_int_64) (simp_all add: spec_backoff_def)


lemma spec_trace_eq:
  "spec_retry_trace h m e k
     = concat (map (spec_failed_attempt h m e) [0 ..< min k (nat m - 1)]) @ attempt_call h"
  by (simp add: spec_retry_trace_def)

lemma fetch_outcome:
  assumes "1 \<le> maxRetries" and "int k \<le> maxRetries"
    and "\<forall>j<k. client blockNumber j = Inl (e j)"
    and "int k < maxRetries \<longrightarrow> client blockNumber k = Inr block"
  shows "fetchBlockWithRetry client blockNumber maxRetries
           = (if int k < maxRetries then Inr block
              else Inl (FailedAfter maxRetries (Some (e (k - 1)))),
              spec_retry_trace blockNumber maxRetries e k)"
proof (cases "int k < maxRetries")
  case True
  with assms(4) have s: "client blockNumber k = Inr block" by simp
  have "min k (nat maxRetries - 1) = k" using True by simp
  with retry_loop_success [where client = client and h = blockNumber and k = k
      and m = maxRetries and b = block and n = 0 and e = e and le = None, OF True s]
    assms(3) True
  show ?thesis by (simp add: fetchBlockWithRetry_def spec_trace_eq)
next
  case False
  with assms(2) have k: "k = nat maxRetries" by simp
  have "0 < nat maxRetries" using assms(1) by simp
  from retry_loop_exhausted [where client = client and h = blockNumber
      and m = maxRetries and n = 0 and e = e and le = None, OF this] assms(3) False k
  show ?thesis by (simp add: fetchBlockWithRetry_def spec_trace_eq)
qed

lemma fetch_always_failing:
  assumes "\<forall>i. client f i = Inl (e i)"
  shows "fetchBlockWithRetry client f 2
           = (Inl (FailedAfter 2 (Some (e 1))),
              attempt_call f @ [LogWarn f 1 2 500000000 (e 0), Sleep 500000000] @ attempt_call f)"
proof -
  have "fetchBlockWithRetry client f 2
          = (Inl (FailedAfter 2 (Some (e 1))), spec_retry_trace f 2 e 2)"
    using fetch_outcome [where maxRetries = 2 and k = 2 and client = client
        and blockNumber = f and e = e] assms by simp
  then show ?thesis
    by (simp add: spec_retry_trace_def spec_failed_attempt_def spec_backoff_def upt_conv_Cons)
qed

lemma fetch_served_at_once:
  assumes "client h 0 = Inr b"
  shows "fetchBlockWithRetry client h 2 = (Inr b, attempt_call h)"
  using retry_loop_served [where i = 0 and m = 2 and client = client and h = h and b = b] assms
  by (simp add: fetchBlockWithRetry_def)

lemma range_loop_skip:
  "num \<le> end' \<Longrightarrow> fetchBlockWithRetry client (uint num) 2 = (Inl err, evs) \<Longrightarrow>
   range_loop client ctxDone start end' num successCount skipCount out
     = range_loop client ctxDone start end' (num + 1) successCount (skipCount + 1)
         (out @ TickerWait # evs @ [LogError num err])"
  by (subst range_loop.simps) simp

lemma range_loop_next:
  "num \<le> end' \<Longrightarrow> fetchBlockWithRetry client (uint num) 2 = (Inr block, evs) \<Longrightarrow>
   \<not> ctxDone num \<Longrightarrow>
   range_loop client ctxDone start end' num successCount skipCount out
     = range_loop client ctxDone start end' (num + 1) (successCount + 1) skipCount
         (out @ TickerWait # evs @ [PrintBlockInfo num block])"
  by (subst range_loop.simps) simp

lemma range_loop_cancel:
  "num \<le> end' \<Longrightarrow> fetchBlockWithRetry client (uint num) 2 = (Inr block, evs) \<Longrightarrow>
   ctxDone num \<Longrightarrow>
   range_loop client ctxDone start end' num successCount skipCount out
     = Some (out @ TickerWait # evs @ [PrintBlockInfo num block, LogCancelled num, TickerStop])"
  by (subst range_loop.simps) simp

lemma range_loop_summary:
  "\<not> num \<le> end' \<Longrightarrow>
   range_loop client ctxDone start end' num successCount skipCount out
     = Some (out @ [PrintSummaryHeading, PrintSuccess successCount, PrintSkipped skipCount,
                    PrintTotal (end' - start + 1), TickerStop])"
  by (subst range_loop.simps) simp

lemma retry_event_plain:
  "retry_event h ev \<Longrightarrow> \<not> is_summary_line ev \<and> (\<forall>h'. is_call_at h' ev \<longrightarrow> h' = h)"
  by (cases ev) simp_all

lemma retry_loop_events:
  "list_all (retry_event h) (snd (retry_loop client h m i le))"
proof (induction "nat (m - i)" arbitrary: i le)
  case 0
  then have "\<not> i < m" by simp
  then show ?case by (simp add: retry_loop_done)
next
  case (Suc d)
  then have lt: "i < m" by simp
  have ac: "list_all (retry_event h) (attempt_call h :: 'a fetch_event list)"
    by (simp add: attempt_call_def retry_event.simps)
  show ?case
  proof (cases "client h (nat i)")
    case (Inr b)
    with lt ac show ?thesis by (simp add: retry_loop_served)
  next
    case (Inl err)
    have d: "d = nat (m - (i + 1))" using Suc.hyps(2) by simp
    from Suc.hyps(1) [OF d, of "Some err"] ac show ?thesis
      by (simp add: retry_loop_failed [where client = client and h = h and i = i and m = m
            and err = err, OF lt Inl] retry_event.simps)
  qed
qed

lemma fetch_events:
  assumes "fetchBlockWithRetry client h 2 = (r, evs)"
  shows "summary_lines evs = []" and "h' \<noteq> h \<Longrightarrow> attempts_at evs h' = 0"
proof -
  have "list_all (retry_event h) evs"
    using retry_loop_events [of h client 2 0 None] assms by (simp add: fetchBlockWithRetry_def)
  then have a: "\<forall>ev \<in> set evs. \<not> is_summary_line ev \<and> (\<forall>h'. is_call_at h' ev \<longrightarrow> h' = h)"
    using retry_event_plain by (fastforce simp: list_all_iff)
  then show "summary_lines evs = []" by (simp add: summary_lines_def filter_empty_conv)
  from a show "h' \<noteq> h \<Longrightarrow> attempts_at evs h' = 0"
    by (auto simp: attempts_at_def filter_empty_conv)
qed

lemma summary_lines_append [simp]:
  "summary_lines (xs @ ys) = summary_lines xs @ summary_lines ys"
  by (simp add: summary_lines_def)

lemma attempts_at_append [simp]:
  "attempts_at (xs @ ys) h = attempts_at xs h + attempts_at ys h"
  by (simp add: attempts_at_def)

lemma range_loop_cancel_at:
  fixes client :: "'b client"
  assumes "c \<le> end'"
    and "fetchBlockWithRetry client (uint c) 2 = (Inr block, evs)"
    and "ctxDone c"
  shows "num \<le> c \<Longrightarrow>
         (\<forall>n. num \<le> n \<and> n < c \<longrightarrow>
               \<not> (ctxDone n \<and> (\<exists>b. fst (fetchBlockWithRetry client (uint n) 2) = Inr b))) \<Longrightarrow>
         \<exists>pre. range_loop client ctxDone start end' num successCount skipCount out
                 = Some (out @ pre @ TickerWait # evs
                             @ [PrintBlockInfo c block, LogCancelled c, TickerStop])
              \<and> summary_lines pre = []
              \<and> (\<forall>n. c < n \<longrightarrow> attempts_at pre (uint n) = 0)"
proof (induction "unat c - unat num" arbitrary: num successCount skipCount out)
  case 0
  then have "num = c" by unat_arith
  with assms show ?case
    by (intro exI [of _ "[]"]) (simp add: range_loop_cancel summary_lines_def attempts_at_def)
next
  case (Suc d)
  then have lt: "num < c" by unat_arith
  then have le: "num \<le> end'" using assms(1) by simp
  have next_le: "num + 1 \<le> c" using lt by (rule inc_le)
  have d: "d = unat c - unat (num + 1)" using Suc.hyps(2) lt by unat_arith
  have later: "\<forall>n. num + 1 \<le> n \<and> n < c \<longrightarrow>
                 \<not> (ctxDone n \<and> (\<exists>b. fst (fetchBlockWithRetry client (uint n) 2) = Inr b))"
  proof (intro allI impI)
    fix n assume n: "num + 1 \<le> n \<and> n < c"
    then have "num \<le> n" using lt by unat_arith
    with n Suc.prems(2) show "\<not> (ctxDone n \<and> (\<exists>b. fst (fetchBlockWithRetry client (uint n) 2) = Inr b))"
      by blast
  qed
  have far: "\<And>n. c < n \<Longrightarrow> uint n \<noteq> uint num" using lt by (auto simp: word_less_def)
  obtain r es where f: "fetchBlockWithRetry client (uint num) 2 = (r, es)"
    by (cases "fetchBlockWithRetry client (uint num) 2")
  note fe = fetch_events [OF f]
  show ?case
  proof (cases r)
    case (Inl err)
    let ?out = "out @ TickerWait # es @ [LogError num err]"
    from Suc.hyps(1) [OF d next_le later, of successCount "skipCount + 1" ?out]
    obtain pre where pre:
      "range_loop client ctxDone start end' (num + 1) successCount (skipCount + 1) ?out
         = Some (?out @ pre @ TickerWait # evs
                   @ [PrintBlockInfo c block, LogCancelled c, TickerStop])"
      "summary_lines pre = []" "\<forall>n. c < n \<longrightarrow> attempts_at pre (uint n) = 0"
      by blast
    let ?pre = "TickerWait # es @ [LogError num err] @ pre"
    have "range_loop client ctxDone start end' num successCount skipCount out
            = Some (out @ ?pre @ TickerWait # evs
                      @ [PrintBlockInfo c block, LogCancelled c, TickerStop])"
      using range_loop_skip [OF le f [unfolded Inl]] pre(1) by simp
    moreover have "summary_lines ?pre = []"
      using fe(1) pre(2) by (simp add: summary_lines_def)
    moreover have "\<forall>n. c < n \<longrightarrow> attempts_at ?pre (uint n) = 0"
      using fe(2) pre(3) far by (simp add: attempts_at_def)
    ultimately show ?thesis by blast
  next
    case (Inr b)
    with f lt le Suc.prems(2) have nd: "\<not> ctxDone num" by auto
    let ?out = "out @ TickerWait # es @ [PrintBlockInfo num b]"
    from Suc.hyps(1) [OF d next_le later, of "successCount + 1" skipCount ?out]
    obtain pre where pre:
      "range_loop client ctxDone start end' (num + 1) (successCount + 1) skipCount ?out
         = Some (?out @ pre @ TickerWait # evs
                   @ [PrintBlockInfo c block, LogCancelled c, TickerStop])"
      "summary_lines pre = []" "\<forall>n. c < n \<longrightarrow> attempts_at pre (uint n) = 0"
      by blast
    let ?pre = "TickerWait # es @ [PrintBlockInfo num b] @ pre"
    have "range_loop client ctxDone start end' num successCount skipCount out
            = Some (out @ ?pre @ TickerWait # evs
                      @ [PrintBlockInfo c block, LogCancelled c, TickerStop])"
      using range_loop_next [where ctxDone = ctxDone, OF le f [unfolded Inr] nd] pre(1) by simp
    moreover have "summary_lines ?pre = []"
      using fe(1) pre(2) by (simp add: summary_lines_def)
    moreover have "\<forall>n. c < n \<longrightarrow> attempts_at ?pre (uint n) = 0"
      using fe(2) pre(3) far by (simp add: attempts_at_def)
    ultimately show ?thesis by blast
  qed
qed


section \<open>Properties of parseLogEvent and of the event loop\<close>

text \<open>
  C1. A log record whose first topic is the digest of no event of the ABI makes
  \<^verbatim>\<open>parseLogEvent\<close> print exactly one line, the unknown-event line, which carries the
  clock reading of the print, the block number, the transaction hash and topic 0, and
  return normally; the event loop then goes on with its next iteration.
\<close>

theorem C1_unknown_event:
  assumes "Topics vLog \<noteq> []"
    and "\<forall>(name, event) \<in> set (Events parsedABI).
           Keccak256Hash ext (Sig event) \<noteq> hd (Topics vLog)"
  shows "parseLogEvent ext now vLog parsedABI
           = Inr [UnknownEvent now (BlockNumber vLog) (TxHash vLog) (hd (Topics vLog))]
       \<and> main_loop ext clock parsedABI k (LogsCh vLog # es)
           = (EventOutput (UnknownEvent (clock k) (BlockNumber vLog) (TxHash vLog)
                             (hd (Topics vLog)))
                # fst (main_loop ext clock parsedABI (Suc k) es),
              snd (main_loop ext clock parsedABI (Suc k) es))"
proof -
  have hd0: "Topics vLog ! 0 = hd (Topics vLog)"
    using assms(1) by (simp add: hd_conv_nth)
  have fe: "find_event (Keccak256Hash ext) (hd (Topics vLog)) (Events parsedABI)
              = ('''', \<lparr>Sig = '''', Inputs = []\<rparr>)"
    using assms(2) by (rule find_event_no_match)
  have p: "\<And>now. parseLogEvent ext now vLog parsedABI
           = Inr [UnknownEvent now (BlockNumber vLog) (TxHash vLog) (hd (Topics vLog))]"
    using assms(1) by (simp add: parseLogEvent_def hd0 fe)
  show ?thesis by (simp add: p split: prod.split)
qed

theorem C1_unknown_event_witness:
  "Topics (example_log [replicate 32 0x77] []) \<noteq> []
   \<and> parseLogEvent example_ext ''2024-01-01T00:00:00Z'' (example_log [replicate 32 0x77] []) erc20ABI
       = Inr [UnknownEvent ''2024-01-01T00:00:00Z'' 19000000 (replicate 32 0xab) (replicate 32 0x77)]
   \<and> main_loop example_ext example_clock erc20ABI 0
         [LogsCh (example_log [replicate 32 0x77] []), CtxDone]
       = ([EventOutput (UnknownEvent ''2024-01-01T00:00:00Z'' 19000000 (replicate 32 0xab)
                          (replicate 32 0x77)),
           PrintContextCancelled], Returned)"
proof -
  let ?L = "example_log [replicate 32 0x77] []"
  have h1: "Topics ?L \<noteq> []" by (simp add: example_log_def)
  have h2: "\<forall>(name, event) \<in> set (Events erc20ABI).
              Keccak256Hash example_ext (Sig event) \<noteq> hd (Topics ?L)"
    by (simp add: example_defs)
  from C1_unknown_event [OF h1 h2, where now = "''2024-01-01T00:00:00Z''"
      and clock = example_clock and k = 0 and es = "[CtxDone]"] h1
  show ?thesis by (simp add: example_log_def example_clock_def replicate_numeral)
qed

text \<open>
  C2. Whatever the loop has handled so far, the iteration in which the \<^verbatim>\<open>select\<close>
  takes the subscription error, the signal or the done context is the last one: what
  follows it in the sequence of ready cases changes neither the output nor the final
  status, the loop is no longer selecting, and when only well-formed logs came before,
  \<^verbatim>\<open>main\<close> has returned.
\<close>

theorem C2_shutdown_ends_loop:
  assumes "is_shutdown t"
  shows "main_loop ext clock parsedABI k (pre @ t # rest)
           = main_loop ext clock parsedABI k (pre @ [t])
       \<and> snd (main_loop ext clock parsedABI k (pre @ t # rest)) \<noteq> Selecting
       \<and> (list_all running_case pre
            \<longrightarrow> snd (main_loop ext clock parsedABI k (pre @ t # rest)) = Returned)"
proof -
  have cut: "main_loop ext clock parsedABI k (pre @ t # rest)
               = main_loop ext clock parsedABI k (pre @ [t])"
    using assms by (rule main_loop_cut)
  have ns: "snd (main_loop ext clock parsedABI k (pre @ [t])) \<noteq> Selecting"
  proof (induction pre arbitrary: k)
    case Nil
    from assms show ?case by (cases t) simp_all
  next
    case (Cons c pre)
    show ?case
    proof (cases c)
      case (LogsCh vLog)
      then show ?thesis using Cons.IH [of "Suc k"]
        by (auto split: sum.split prod.split)
    qed simp_all
  qed
  from cut ns main_loop_returns [OF assms, of pre ext clock parsedABI k]
  show ?thesis by simp
qed

theorem C2_shutdown_ends_loop_witness:
  "is_shutdown (SubErr ''EOF'')
   \<and> list_all running_case [LogsCh (example_log [replicate 32 0x77] [])]
   \<and> main_loop example_ext example_clock erc20ABI 0
       ([LogsCh (example_log [replicate 32 0x77] [])] @ SubErr ''EOF''
          # [LogsCh (example_log [replicate 32 0x77] []), SigCh ''interrupt''])
       = ([EventOutput (UnknownEvent ''2024-01-01T00:00:00Z'' 19000000 (replicate 32 0xab)
                          (replicate 32 0x77)),
           LogSubscriptionError ''EOF''], Returned)"
proof -
  let ?L = "example_log [replicate 32 0x77] []"
  have h: "is_shutdown (SubErr ''EOF'')" by simp
  have r: "list_all running_case [LogsCh ?L]"
    by (simp add: wf_log_def example_log_def)
  have e: "main_loop example_ext example_clock erc20ABI 0 ([LogsCh ?L] @ [SubErr ''EOF''])
             = ([EventOutput (UnknownEvent ''2024-01-01T00:00:00Z'' 19000000 (replicate 32 0xab)
                                (replicate 32 0x77)),
                 LogSubscriptionError ''EOF''], Returned)"
    by (simp add: parseLogEvent_def example_defs)
  from C2_shutdown_ends_loop [OF h, where pre = "[LogsCh ?L]"
      and rest = "[LogsCh ?L, SigCh ''interrupt'']" and ext = example_ext
      and clock = example_clock and parsedABI = erc20ABI and k = 0] h r e
  show ?thesis by simp
qed



text \<open>
  C6. A 32-byte topic word of an integer parameter, declared \<^verbatim>\<open>int\<close> or \<^verbatim>\<open>uint\<close>
  alike, is printed as the big-endian unsigned value of its 32 bytes, the sum of
  \<open>byte i * 256 ^ (31 - i)\<close>. That value is never negative: a word that is a negative
  number in two's complement comes out as a value of at least \<open>2 ^ 255\<close>.
\<close>

theorem C6_integer_topic_unsigned:
  assumes "length topic = 32" and "ty = IntTy \<or> ty = UintTy"
  shows "decodeTopic ty topic
           = Inr (BigIntString (\<Sum>i<32. uint (topic ! i) * 256 ^ (31 - i)))
       \<and> 0 \<le> (\<Sum>i<32. uint (topic ! i) * 256 ^ (31 - i))
       \<and> (\<Sum>i<32. uint (topic ! i) * 256 ^ (31 - i)) < 2 ^ 256"
proof -
  have s: "SetBytes topic = (\<Sum>i<32. uint (topic ! i) * 256 ^ (31 - i))"
    using SetBytes_sum [of topic] assms(1) by simp
  have "(256::int) ^ 32 = 2 ^ 256" by simp
  then have b: "0 \<le> SetBytes topic \<and> SetBytes topic < 2 ^ 256"
    using SetBytes_bounds [of topic] assms(1) by simp
  from assms(2) have "decodeTopic ty topic = Inr (BigIntString (SetBytes topic))" by auto
  with s b show ?thesis by simp
qed

theorem C6_integer_topic_unsigned_witness:
  "length (replicate 32 (0xff :: byte)) = 32
   \<and> decodeTopic IntTy (replicate 32 0xff) = Inr (BigIntString (2 ^ 256 - 1))
   \<and> decodeTopic IntTy (replicate 32 0xff) = decodeTopic UintTy (replicate 32 0xff)"
proof -
  have h1: "length (replicate 32 (0xff :: byte)) = 32" by simp
  have h2: "IntTy = IntTy \<or> IntTy = UintTy" by simp
  have v: "(\<Sum>i<32. uint (replicate 32 (0xff :: byte) ! i) * 256 ^ (31 - i)) = 2 ^ 256 - 1"
    by (simp add: lessThan_nat_numeral sum.lessThan_Suc)
  from C6_integer_topic_unsigned [OF h1 h2] v h1 show ?thesis by simp
qed

text \<open>
  C7. Decoding a 32-byte topic word yields a value for every type tag and never panics;
  a tag outside address, int, uint, bool, bytes and fixed bytes yields the word itself
  marked raw. Hence \<^verbatim>\<open>parseLogEvent\<close> returns normally on every log whose topics are
  32-byte words, whatever types the event declares.
\<close>

theorem C7_topic_decode_total:
  assumes "length topic = 32"
  shows "(\<exists>v. decodeTopic ty topic = Inr v)
       \<and> (ty \<notin> {AddressTy, IntTy, UintTy, BoolTy, BytesTy, FixedBytesTy}
            \<longrightarrow> decodeTopic ty topic = Inr (HashHexRaw topic))
       \<and> (wf_log vLog \<longrightarrow> (\<exists>ls. parseLogEvent ext now vLog parsedABI = Inr ls))"
proof -
  have "\<exists>v. decodeTopic ty topic = Inr v"
    using assms by (rule decodeTopic_no_panic)
  moreover have "ty \<notin> {AddressTy, IntTy, UintTy, BoolTy, BytesTy, FixedBytesTy}
                   \<longrightarrow> decodeTopic ty topic = Inr (HashHexRaw topic)"
    by (cases ty) simp_all
  moreover have "wf_log vLog \<longrightarrow> (\<exists>ls. parseLogEvent ext now vLog parsedABI = Inr ls)"
    using parseLogEvent_no_panic by blast
  ultimately show ?thesis by blast
qed

theorem C7_topic_decode_total_witness:
  "length transfer_topic = 32
   \<and> decodeTopic StringTy transfer_topic = Inr (HashHexRaw transfer_topic)
   \<and> decodeTopic BoolTy (word_of_address 1) = Inr (BoolValue True)
   \<and> wf_log (example_log [transfer_topic, word_of_address 1, word_of_address 2] [])
   \<and> (\<exists>ls. parseLogEvent example_ext ''2024-01-01T00:00:00Z''
              (example_log [transfer_topic, word_of_address 1, word_of_address 2] []) erc20ABI
            = Inr ls)"
proof -
  let ?L = "example_log [transfer_topic, word_of_address 1, word_of_address 2] []"
  have h: "length transfer_topic = 32" by (simp add: transfer_topic_def)
  have s: "StringTy \<notin> {AddressTy, IntTy, UintTy, BoolTy, BytesTy, FixedBytesTy}" by simp
  have w: "wf_log ?L"
    by (simp add: wf_log_def example_log_def transfer_topic_def word_of_address_def)
  have b: "decodeTopic BoolTy (word_of_address 1) = Inr (BoolValue True)"
    by (simp add: index_byte_def word_of_address_def replicate_numeral)
  from C7_topic_decode_total [OF h, where ty = StringTy and vLog = ?L and ext = example_ext
      and now = "''2024-01-01T00:00:00Z''" and parsedABI = erc20ABI] h s w b
  show ?thesis by auto
qed

text \<open>
  C8. When the event is recognised, the payload is not empty, the event has a
  non-indexed parameter and \<^verbatim>\<open>Unpack\<close> returns an error, \<^verbatim>\<open>parseLogEvent\<close> prints
  the header and the indexed parameters, then the decode error and the closing line, and
  returns normally; the event loop goes on with its next iteration.
\<close>

theorem C8_decode_error_continues:
  assumes "Topics vLog \<noteq> []" and "wf_log vLog"
    and "find_event (Keccak256Hash ext) (hd (Topics vLog)) (Events parsedABI)
           = (eventName, eventSig)"
    and "eventName \<noteq> []"
    and "Data vLog \<noteq> []"
    and "\<exists>input \<in> set (Inputs eventSig). \<not> Indexed input"
    and "Unpack ext parsedABI eventName (Data vLog) = Inl err"
  shows "\<exists>lines. list_all (\<lambda>l. l \<noteq> Footer \<and> l \<noteq> NonIndexedHeading) lines
       \<and> parseLogEvent ext (clock k) vLog parsedABI
           = Inr (lines @ [NonIndexedHeading, DecodeError err, Footer])
       \<and> main_loop ext clock parsedABI k (LogsCh vLog # es)
           = (map EventOutput (lines @ [NonIndexedHeading, DecodeError err, Footer])
                @ fst (main_loop ext clock parsedABI (Suc k) es),
              snd (main_loop ext clock parsedABI (Suc k) es))"
proof -
  have hd0: "Topics vLog ! 0 = hd (Topics vLog)"
    using assms(1) by (simp add: hd_conv_nth)
  obtain indexed where ix: "indexed_params (Topics vLog) 0 0 (Inputs eventSig) = Inr indexed"
    using indexed_params_no_panic assms(2) unfolding wf_log_def by blast
  have flt: "filter (\<lambda>input. \<not> Indexed input) (Inputs eventSig) \<noteq> []"
    using assms(6) by (simp add: filter_empty_conv)
  have ni: "non_indexed_params ext vLog parsedABI eventName eventSig
              = [NonIndexedHeading, DecodeError err]"
    using assms(5,7) flt by (simp add: non_indexed_params_def)
  let ?lines = "[Separator, EventLine (clock k) eventName, BlockNumberLine (BlockNumber vLog),
                 TxHashLine (TxHash vLog), LogIndexLine (Index vLog), ContractLine (Address vLog),
                 TopicsCountLine (length (Topics vLog)), IndexedHeading] @ indexed"
  have p: "parseLogEvent ext (clock k) vLog parsedABI
             = Inr (?lines @ [NonIndexedHeading, DecodeError err, Footer])"
    using assms(1,4) by (simp add: parseLogEvent_def hd0 assms(3) ix ni)
  have "list_all is_IndexedParam indexed"
    using ix by (rule indexed_params_lines)
  then have "list_all (\<lambda>l. l \<noteq> Footer \<and> l \<noteq> NonIndexedHeading) indexed"
    by (auto simp: list_all_iff)
  then have l: "list_all (\<lambda>l. l \<noteq> Footer \<and> l \<noteq> NonIndexedHeading) ?lines" by simp
  from l p main_loop_LogsCh [where clock = clock and k = k, OF p] show ?thesis by blast
qed

theorem C8_decode_error_continues_witness:
  "wf_log (example_log [transfer_topic, word_of_address 1, word_of_address 2] [0x2a])
   \<and> find_event (Keccak256Hash example_ext) transfer_topic (Events erc20ABI)
       = (''Transfer'', transfer_event)
   \<and> Unpack example_ext erc20ABI ''Transfer'' [0x2a] = Inl ''abi: improperly formatted output''
   \<and> (\<exists>lines. parseLogEvent example_ext (example_clock 0)
                 (example_log [transfer_topic, word_of_address 1, word_of_address 2] [0x2a])
                 erc20ABI
               = Inr (lines @ [NonIndexedHeading,
                               DecodeError ''abi: improperly formatted output'', Footer])
         \<and> main_loop example_ext example_clock erc20ABI 0
               [LogsCh (example_log [transfer_topic, word_of_address 1, word_of_address 2] [0x2a]),
                CtxDone]
             = (map EventOutput
                  (lines @ [NonIndexedHeading,
                            DecodeError ''abi: improperly formatted output'', Footer])
                @ [PrintContextCancelled], Returned))"
proof -
  let ?L = "example_log [transfer_topic, word_of_address 1, word_of_address 2] [0x2a]"
  have h1: "Topics ?L \<noteq> []" by (simp add: example_log_def)
  have h2: "wf_log ?L"
    by (simp add: wf_log_def example_log_def transfer_topic_def word_of_address_def)
  have fe: "find_event (Keccak256Hash example_ext) transfer_topic (Events erc20ABI)
              = (''Transfer'', transfer_event)"
    by (simp add: example_ext_def erc20ABI_def erc20_digest_def transfer_event_def)
  then have h3: "find_event (Keccak256Hash example_ext) (hd (Topics ?L)) (Events erc20ABI)
              = (''Transfer'', transfer_event)"
    by (simp add: example_log_def)
  have h4: "''Transfer'' \<noteq> []" by simp
  have h5: "Data ?L \<noteq> []" by (simp add: example_log_def)
  have h6: "\<exists>input \<in> set (Inputs transfer_event). \<not> Indexed input"
    by (simp add: transfer_event_def)
  have u: "Unpack example_ext erc20ABI ''Transfer'' [0x2a] = Inl ''abi: improperly formatted output''"
    by (simp add: example_ext_def one_word_unpack_def)
  then have h7: "Unpack example_ext erc20ABI ''Transfer'' (Data ?L)
               = Inl ''abi: improperly formatted output''"
    by (simp add: example_log_def)
  from C8_decode_error_continues [OF h1 h2 h3 h4 h5 h6 h7, where clock = example_clock
      and k = 0 and es = "[CtxDone]"] h2 fe u
  show ?thesis by auto
qed

text \<open>
  C9. When the event is recognised and the payload is empty, \<^verbatim>\<open>parseLogEvent\<close> prints
  the header and the indexed parameters, then the line that says there are no
  non-indexed parameters, and the closing line. No decode error is printed and the
  result is the same whatever \<^verbatim>\<open>Unpack\<close> would return: the decoder is not called.
  This holds whether or not the event declares non-indexed parameters.
\<close>

theorem C9_empty_payload_skips_decoding:
  assumes "Topics vLog \<noteq> []" and "wf_log vLog"
    and "find_event (Keccak256Hash ext) (hd (Topics vLog)) (Events parsedABI)
           = (eventName, eventSig)"
    and "eventName \<noteq> []"
    and "Data vLog = []"
  shows "\<exists>lines. list_all (\<lambda>l. l \<noteq> NonIndexedHeading \<and> l \<noteq> DecodeError err) lines
       \<and> parseLogEvent ext now vLog parsedABI = Inr (lines @ [NonIndexedNone, Footer])
       \<and> parseLogEvent (ext\<lparr>Unpack := u\<rparr>) now vLog parsedABI
           = parseLogEvent ext now vLog parsedABI"
proof -
  have hd0: "Topics vLog ! 0 = hd (Topics vLog)"
    using assms(1) by (simp add: hd_conv_nth)
  obtain indexed where ix: "indexed_params (Topics vLog) 0 0 (Inputs eventSig) = Inr indexed"
    using indexed_params_no_panic assms(2) unfolding wf_log_def by blast
  have ni: "\<And>ext'. non_indexed_params ext' vLog parsedABI eventName eventSig = [NonIndexedNone]"
    using assms(5) by (simp add: non_indexed_params_def)
  let ?lines = "[Separator, EventLine now eventName, BlockNumberLine (BlockNumber vLog),
                 TxHashLine (TxHash vLog), LogIndexLine (Index vLog), ContractLine (Address vLog),
                 TopicsCountLine (length (Topics vLog)), IndexedHeading] @ indexed"
  have p: "\<And>ext'. Keccak256Hash ext' = Keccak256Hash ext \<Longrightarrow>
             parseLogEvent ext' now vLog parsedABI = Inr (?lines @ [NonIndexedNone, Footer])"
    using assms(1,4) by (simp add: parseLogEvent_def hd0 assms(3) ix ni)
  have "list_all is_IndexedParam indexed"
    using ix by (rule indexed_params_lines)
  then have "list_all (\<lambda>l. l \<noteq> NonIndexedHeading \<and> l \<noteq> DecodeError err) indexed"
    by (auto simp: list_all_iff)
  then have l: "list_all (\<lambda>l. l \<noteq> NonIndexedHeading \<and> l \<noteq> DecodeError err) ?lines"
    by simp
  have "parseLogEvent (ext\<lparr>Unpack := u\<rparr>) now vLog parsedABI
          = parseLogEvent ext now vLog parsedABI"
    by (simp add: p)
  with l p [of ext] show ?thesis by blast
qed

theorem C9_empty_payload_skips_decoding_witness:
  "wf_log (example_log [transfer_topic, word_of_address 1, word_of_address 2] [])
   \<and> find_event (Keccak256Hash example_ext) transfer_topic (Events erc20ABI)
       = (''Transfer'', transfer_event)
   \<and> Indexed (Inputs transfer_event ! 2) = False
   \<and> Data (example_log [transfer_topic, word_of_address 1, word_of_address 2] []) = []
   \<and> (\<exists>lines. parseLogEvent example_ext ''2024-01-01T00:00:00Z''
                 (example_log [transfer_topic, word_of_address 1, word_of_address 2] []) erc20ABI
               = Inr (lines @ [NonIndexedNone, Footer]))
   \<and> parseLogEvent (example_ext\<lparr>Unpack := \<lambda>a n d. Inl ''never called''\<rparr>)
         ''2024-01-01T00:00:00Z''
         (example_log [transfer_topic, word_of_address 1, word_of_address 2] []) erc20ABI
       = parseLogEvent example_ext ''2024-01-01T00:00:00Z''
           (example_log [transfer_topic, word_of_address 1, word_of_address 2] []) erc20ABI"
proof -
  let ?L = "example_log [transfer_topic, word_of_address 1, word_of_address 2] []"
  have h1: "Topics ?L \<noteq> []" by (simp add: example_log_def)
  have h2: "wf_log ?L"
    by (simp add: wf_log_def example_log_def transfer_topic_def word_of_address_def)
  have fe: "find_event (Keccak256Hash example_ext) transfer_topic (Events erc20ABI)
              = (''Transfer'', transfer_event)"
    by (simp add: example_ext_def erc20ABI_def erc20_digest_def transfer_event_def)
  then have h3: "find_event (Keccak256Hash example_ext) (hd (Topics ?L)) (Events erc20ABI)
              = (''Transfer'', transfer_event)"
    by (simp add: example_log_def)
  have h4: "''Transfer'' \<noteq> []" by simp
  have h5: "Data ?L = []" by (simp add: example_log_def)
  have n: "Indexed (Inputs transfer_event ! 2) = False" by (simp add: transfer_event_def)
  from C9_empty_payload_skips_decoding [OF h1 h2 h3 h4 h5, where now = "''2024-01-01T00:00:00Z''"
      and u = "\<lambda>a n d. Inl ''never called''"] h2 fe h5 n
  show ?thesis by auto
qed

text \<open>
  C10. A log record with no topics produces no output: \<^verbatim>\<open>parseLogEvent\<close> returns at
  once with nothing printed, whatever the ABI, the clock and the decoder are, and the
  event loop goes on to its next iteration with nothing added to its output.
\<close>

theorem C10_empty_topics_no_output:
  assumes "Topics vLog = []"
  shows "parseLogEvent ext now vLog parsedABI = Inr []
       \<and> main_loop ext clock parsedABI k (LogsCh vLog # es)
           = main_loop ext clock parsedABI (Suc k) es"
  using assms by (simp add: parseLogEvent_def)

theorem C10_empty_topics_no_output_witness:
  "Topics (example_log [] [0x2a]) = []
   \<and> parseLogEvent example_ext ''2024-01-01T00:00:00Z'' (example_log [] [0x2a]) erc20ABI = Inr []
   \<and> main_loop example_ext example_clock erc20ABI 0 [LogsCh (example_log [] [0x2a]), CtxDone]
       = ([PrintContextCancelled], Returned)"
proof -
  have h: "Topics (example_log [] [0x2a]) = []" by (simp add: example_log_def)
  from C10_empty_topics_no_output [OF h, where ext = example_ext
      and now = "''2024-01-01T00:00:00Z''" and parsedABI = erc20ABI and clock = example_clock
      and k = 0 and es = "[CtxDone]"] h
  show ?thesis by simp
qed

section \<open>Properties of the block fetcher\<close>

text \<open>
  C3. Let the first \<open>k\<close> attempts at a block number fail, \<open>k\<close> being \<open>maxRetries\<close>
  when all of them fail and the index of the first successful attempt otherwise. Then
  \<^verbatim>\<open>fetchBlockWithRetry\<close> returns the block of attempt \<open>k\<close> when there is one, and
  else the error that wraps the error of the last attempt; it makes \<open>k + 1\<close> attempts,
  never more than \<open>maxRetries\<close>; every attempt has its own context with a 10 second
  timeout; and after failed attempt number \<open>j\<close> that is not the last allowed one it
  sleeps \<open>j\<close> times 500 ms. \<open>maxRetries\<close> is at least 1 and small enough for the
  backoff to fit a \<^verbatim>\<open>time.Duration\<close> (the callers pass 2 and 3).
\<close>

theorem C3_retry_policy:
  assumes "1 \<le> maxRetries" and "maxRetries \<le> 18446744073"
    and "int k \<le> maxRetries"
    and "\<forall>j<k. client blockNumber j = Inl (e j)"
    and "int k < maxRetries \<longrightarrow> client blockNumber k = Inr block"
  shows "fetchBlockWithRetry client blockNumber maxRetries
           = (if int k < maxRetries then Inr block
              else Inl (FailedAfter maxRetries (Some (e (k - 1)))),
              spec_retry_trace blockNumber maxRetries e k)
       \<and> attempts (snd (fetchBlockWithRetry client blockNumber maxRetries))
           = min (k + 1) (nat maxRetries)
       \<and> int (attempts (snd (fetchBlockWithRetry client blockNumber maxRetries))) \<le> maxRetries
       \<and> sleeps (snd (fetchBlockWithRetry client blockNumber maxRetries))
           = map (\<lambda>j. spec_backoff (j + 1)) [0 ..< min k (nat maxRetries - 1)]
       \<and> timeouts (snd (fetchBlockWithRetry client blockNumber maxRetries))
           = replicate (min (k + 1) (nat maxRetries)) 10000000000"
proof -
  let ?tr = "spec_retry_trace blockNumber maxRetries e k :: 'a fetch_event list"
  have run: "fetchBlockWithRetry client blockNumber maxRetries
               = (if int k < maxRetries then Inr block
                  else Inl (FailedAfter maxRetries (Some (e (k - 1)))), ?tr)"
    using assms(1,3,4,5) by (rule fetch_outcome)
  have a1: "attempts (attempt_call blockNumber :: 'a fetch_event list) = 1"
    by (simp add: attempts_def attempt_call_def)
  have t1: "timeouts (attempt_call blockNumber :: 'a fetch_event list) = [10000000000]"
    by (simp add: timeouts_def attempt_call_def)
  have s1: "sleeps (attempt_call blockNumber :: 'a fetch_event list) = []"
    by (simp add: sleeps_def attempt_call_def)
  have a: "attempts ?tr = min (k + 1) (nat maxRetries)"
    using assms(1,3) by (simp add: spec_trace_eq attempts_waits a1)
  have t: "timeouts ?tr = replicate (min (k + 1) (nat maxRetries)) 10000000000"
  proof -
    have "min (k + 1) (nat maxRetries) = Suc (min k (nat maxRetries - 1))"
      using assms(1) by simp
    then show ?thesis
      by (simp add: spec_trace_eq timeouts_waits t1 replicate_append_same)
  qed
  have s: "sleeps ?tr = map (\<lambda>j. spec_backoff (j + 1)) [0 ..< min k (nat maxRetries - 1)]"
  proof -
    have "\<forall>j \<in> set [0 ..< min k (nat maxRetries - 1)].
            sint (word_of_int (spec_backoff (j + 1)) :: 64 word) = spec_backoff (j + 1)"
    proof
      fix j assume "j \<in> set [0 ..< min k (nat maxRetries - 1)]"
      then have "j < nat maxRetries - 1" by simp
      then have "int j + 1 \<le> 18446744073" using assms(2) by arith
      then show "sint (word_of_int (spec_backoff (j + 1)) :: 64 word) = spec_backoff (j + 1)"
        by (rule sint_backoff)
    qed
    then have "map (\<lambda>j. sint (word_of_int (spec_backoff (j + 1)) :: 64 word))
                 [0 ..< min k (nat maxRetries - 1)]
               = map (\<lambda>j. spec_backoff (j + 1)) [0 ..< min k (nat maxRetries - 1)]"
      by (intro map_cong) auto
    then show ?thesis
      by (simp add: spec_trace_eq sleeps_waits s1)
  qed
  have le: "int (min (k + 1) (nat maxRetries)) \<le> maxRetries" using assms(1) by simp
  show ?thesis
    unfolding run using a t s le by simp
qed

theorem C3_retry_policy_witness:
  "fetchBlockWithRetry third_time 7 3
     = (Inr 7,
        [WithTimeout 10000000000, BlockByNumber 7, CancelRequest,
         LogWarn 7 1 3 500000000 ''timeout'', Sleep 500000000,
         WithTimeout 10000000000, BlockByNumber 7, CancelRequest,
         LogWarn 7 2 3 1000000000 ''timeout'', Sleep 1000000000,
         WithTimeout 10000000000, BlockByNumber 7, CancelRequest])
   \<and> attempts (snd (fetchBlockWithRetry third_time 7 3)) = 3
   \<and> sleeps (snd (fetchBlockWithRetry third_time 7 3)) = [500000000, 1000000000]
   \<and> fst (fetchBlockWithRetry failing_102 102 3) = Inl (FailedAfter 3 (Some ''timeout''))
   \<and> attempts (snd (fetchBlockWithRetry failing_102 102 3)) = 3
   \<and> sleeps (snd (fetchBlockWithRetry failing_102 102 3)) = [500000000, 1000000000]"
proof -
  have h1: "(1::int) \<le> 3" and h2: "(3::int) \<le> 18446744073" by simp_all
  have k2: "int 2 \<le> 3" and k3: "int 3 \<le> 3" by simp_all
  have f2: "\<forall>j<2. third_time 7 j = Inl ''timeout''" by (simp add: third_time_def)
  have s2: "int 2 < 3 \<longrightarrow> third_time 7 2 = Inr 7" by (simp add: third_time_def)
  have f3: "\<forall>j<3. failing_102 102 j = Inl ''timeout''" by (simp add: failing_102_def)
  have s3: "int 3 < 3 \<longrightarrow> failing_102 102 3 = Inr 102" by simp
  from C3_retry_policy [where maxRetries = 3 and k = 2 and client = third_time
        and blockNumber = 7 and e = "\<lambda>j. ''timeout''" and block = 7, OF h1 h2 k2 f2 s2]
    C3_retry_policy [where maxRetries = 3 and k = 3 and client = failing_102
        and blockNumber = 102 and e = "\<lambda>j. ''timeout''" and block = 102, OF h1 h2 k3 f3 s3]
  show ?thesis
    by (simp add: spec_retry_trace_def spec_failed_attempt_def spec_backoff_def attempt_call_def
          upt_conv_Cons attempts_def sleeps_def)
qed

text \<open>
  C4, as stated, fails: \<^verbatim>\<open>fetchBlockRange\<close> has no retry parameter and calls
  \<^verbatim>\<open>fetchBlockWithRetry\<close> with the constant 2, so over the blocks 100 to 104 with block
  102 always failing the failing block is attempted twice, not three times.
\<close>

theorem C4_counterexample:
  "attempts_at (trace_of (fetchBlockRange failing_102 (\<lambda>num. False) 100 104 200000000)) 102
     \<noteq> 3"
  by (simp add: fetchBlockRange_def range_loop.simps fetchBlockWithRetry_def retry_loop.simps
        failing_102_def trace_of_def attempts_at_def attempt_call_def)

text \<open>
  C4, amended. Over the blocks 100 to 104, with one block failing at every attempt, every
  other block served at its first attempt, no cancellation and a positive rate limit,
  \<^verbatim>\<open>fetchBlockRange\<close> runs to its end and prints the summary with 4 successes, 1 skipped
  block and a total of 5; the failing block is attempted exactly twice and every other
  block once.
\<close>

theorem C4_range_one_failing_height:
  fixes client :: "'b client"
  assumes "f \<in> {100, 101, 102, 103, 104}"
    and "\<forall>i. client f i = Inl (e i)"
    and "\<forall>h \<in> {100, 101, 102, 103, 104}. h \<noteq> f \<longrightarrow> client h 0 = Inr (blk h)"
    and "\<forall>num. \<not> ctxDone num"
    and "0 < sint rateLimit"
  shows "\<exists>tr. fetchBlockRange client ctxDone 100 104 rateLimit = Some (Inr tr)
       \<and> summary_lines tr = [PrintSummaryHeading, PrintSuccess 4, PrintSkipped 1, PrintTotal 5]
       \<and> attempts_at tr f = 2
       \<and> (\<forall>h \<in> {100, 101, 102, 103, 104}. h \<noteq> f \<longrightarrow> attempts_at tr h = 1)"
proof -
  note bad = fetch_always_failing [where client = client and f = f and e = e, OF assms(2)]
  have ok: "\<And>h. h \<in> {100, 101, 102, 103, 104} \<Longrightarrow> h \<noteq> f \<Longrightarrow>
              fetchBlockWithRetry client h 2 = (Inr (blk h), attempt_call h)"
    using assms(3) by (intro fetch_served_at_once) blast
  note ev = fetchBlockRange_def range_loop.simps summary_lines_def attempts_at_def
    attempt_call_def
  from assms(1) consider "f = 100" | "f = 101" | "f = 102" | "f = 103" | "f = 104" by auto
  then show ?thesis
  proof cases
    case 1
    from bad ok [of 101] ok [of 102] ok [of 103] ok [of 104] assms(4,5) show ?thesis
      unfolding 1 by (simp add: ev)
  next
    case 2
    from bad ok [of 100] ok [of 102] ok [of 103] ok [of 104] assms(4,5) show ?thesis
      unfolding 2 by (simp add: ev)
  next
    case 3
    from bad ok [of 100] ok [of 101] ok [of 103] ok [of 104] assms(4,5) show ?thesis
      unfolding 3 by (simp add: ev)
  next
    case 4
    from bad ok [of 100] ok [of 101] ok [of 102] ok [of 104] assms(4,5) show ?thesis
      unfolding 4 by (simp add: ev)
  next
    case 5
    from bad ok [of 100] ok [of 101] ok [of 102] ok [of 103] assms(4,5) show ?thesis
      unfolding 5 by (simp add: ev)
  qed
qed

theorem C4_range_one_failing_height_witness:
  "summary_lines (trace_of (fetchBlockRange failing_102 (\<lambda>num. False) 100 104 200000000))
     = [PrintSummaryHeading, PrintSuccess 4, PrintSkipped 1, PrintTotal 5]
   \<and> attempts_at (trace_of (fetchBlockRange failing_102 (\<lambda>num. False) 100 104 200000000)) 102
       = 2
   \<and> attempts_at (trace_of (fetchBlockRange failing_102 (\<lambda>num. False) 100 104 200000000)) 104
       = 1"
proof -
  have h1: "(102::int) \<in> {100, 101, 102, 103, 104}" by simp
  have h2: "\<forall>i. failing_102 102 i = Inl ''timeout''" by (simp add: failing_102_def)
  have h3: "\<forall>h \<in> {100, 101, 102, 103, 104}. h \<noteq> 102 \<longrightarrow> failing_102 h 0 = Inr h"
    by (simp add: failing_102_def)
  have h4: "\<forall>num :: 64 word. \<not> False" by simp
  have h5: "0 < sint (200000000 :: 64 word)" by simp
  from C4_range_one_failing_height [where f = 102 and client = failing_102
      and e = "\<lambda>i. ''timeout''" and blk = "\<lambda>h. h" and ctxDone = "\<lambda>num. False"
      and rateLimit = 200000000, OF h1 h2 h3 h4 h5]
  show ?thesis by (auto simp: trace_of_def)
qed

text \<open>
  C5, as stated, fails: when \<^verbatim>\<open>ctx.Done()\<close> is ready after a successful fetch,
  \<^verbatim>\<open>fetchBlockRange\<close> logs the stop and returns from inside the loop, so the summary
  lines after the loop are not printed. Here every block is served and the context is
  done after block 101: the run prints no summary line.
\<close>

theorem C5_counterexample:
  "summary_lines (trace_of (fetchBlockRange serving (\<lambda>num. num = 101) 100 104 200000000)) = []"
  by (simp add: fetchBlockRange_def range_loop.simps fetchBlockWithRetry_def retry_loop.simps
        serving_def trace_of_def summary_lines_def attempt_call_def)

text \<open>
  C5, amended. Let \<open>c\<close> be the first block of the range after whose successful fetch
  \<^verbatim>\<open>ctx.Done()\<close> is ready. Then \<^verbatim>\<open>fetchBlockRange\<close> returns, and what it did ends
  with the fetch of \<open>c\<close>, the print of that block, the log line of the stop at \<open>c\<close>
  and the stop of the ticker: no block after \<open>c\<close> is fetched and no summary line is
  printed.
\<close>

theorem C5_cancel_stops_scan:
  fixes client :: "'b client"
  assumes "start \<le> c" and "c \<le> end'" and "0 < sint rateLimit"
    and "fetchBlockWithRetry client (uint c) 2 = (Inr block, evs)"
    and "ctxDone c"
    and "\<forall>n. start \<le> n \<and> n < c \<longrightarrow>
              \<not> (ctxDone n \<and> (\<exists>b. fst (fetchBlockWithRetry client (uint n) 2) = Inr b))"
  shows "\<exists>pre. fetchBlockRange client ctxDone start end' rateLimit
                 = Some (Inr (pre @ TickerWait # evs
                                @ [PrintBlockInfo c block, LogCancelled c, TickerStop]))
              \<and> summary_lines (pre @ TickerWait # evs
                                 @ [PrintBlockInfo c block, LogCancelled c, TickerStop]) = []
              \<and> (\<forall>n. c < n \<longrightarrow>
                     attempts_at (pre @ TickerWait # evs
                                    @ [PrintBlockInfo c block, LogCancelled c, TickerStop])
                       (uint n) = 0)"
proof -
  let ?hd = "[PrintRangeHeader start end', PrintRateLimit rateLimit, NewTicker rateLimit]
               :: 'b fetch_event list"
  let ?tl = "TickerWait # evs @ [PrintBlockInfo c block, LogCancelled c, TickerStop]"
  from range_loop_cancel_at [OF assms(2,4,5,1,6), of start 0 0 ?hd]
  obtain pre where pre:
    "range_loop client ctxDone start end' start 0 0 ?hd = Some (?hd @ pre @ ?tl)"
    "summary_lines pre = []" "\<forall>n. c < n \<longrightarrow> attempts_at pre (uint n) = 0"
    by blast
  note fe = fetch_events [OF assms(4)]
  have far: "\<And>n. c < n \<Longrightarrow> uint n \<noteq> uint c" by (auto simp: word_less_def)
  have "fetchBlockRange client ctxDone start end' rateLimit = Some (Inr ((?hd @ pre) @ ?tl))"
    using assms(3) pre(1) by (simp add: fetchBlockRange_def)
  moreover have "summary_lines ((?hd @ pre) @ ?tl) = []"
    using fe(1) pre(2) by (simp add: summary_lines_def)
  moreover have "\<forall>n. c < n \<longrightarrow> attempts_at ((?hd @ pre) @ ?tl) (uint n) = 0"
    using fe(2) pre(3) far by (simp add: attempts_at_def)
  ultimately show ?thesis by blast
qed

theorem C5_cancel_stops_scan_witness:
  "fetchBlockWithRetry serving (uint (101 :: 64 word)) 2
     = (Inr 101, [WithTimeout 10000000000, BlockByNumber 101, CancelRequest])
   \<and> fetchBlockRange serving (\<lambda>num. num = 101) 100 104 200000000
       = Some (Inr [PrintRangeHeader 100 104, PrintRateLimit 200000000, NewTicker 200000000,
                    TickerWait, WithTimeout 10000000000, BlockByNumber 100, CancelRequest,
                    PrintBlockInfo 100 100,
                    TickerWait, WithTimeout 10000000000, BlockByNumber 101, CancelRequest,
                    PrintBlockInfo 101 101, LogCancelled 101, TickerStop])
   \<and> summary_lines (trace_of (fetchBlockRange serving (\<lambda>num. num = 101) 100 104 200000000))
       = []
   \<and> attempts_at (trace_of (fetchBlockRange serving (\<lambda>num. num = 101) 100 104 200000000))
         (uint (102 :: 64 word)) = 0"
proof -
  have h1: "(100 :: 64 word) \<le> 101" and h2: "(101 :: 64 word) \<le> 104" by simp_all
  have h3: "0 < sint (200000000 :: 64 word)" by simp
  have h4: "fetchBlockWithRetry serving (uint (101 :: 64 word)) 2
              = (Inr 101, [WithTimeout 10000000000, BlockByNumber 101, CancelRequest])"
    by (simp add: fetchBlockWithRetry_def retry_loop.simps serving_def attempt_call_def)
  have h5: "(101 :: 64 word) = 101" by simp
  have h6: "\<forall>n :: 64 word. 100 \<le> n \<and> n < 101 \<longrightarrow>
              \<not> (n = 101 \<and> (\<exists>b. fst (fetchBlockWithRetry serving (uint n) 2) = Inr b))"
    by auto
  have lt: "(101 :: 64 word) < 102" by simp
  have run: "fetchBlockRange serving (\<lambda>num. num = 101) 100 104 200000000
       = Some (Inr [PrintRangeHeader 100 104, PrintRateLimit 200000000, NewTicker 200000000,
                    TickerWait, WithTimeout 10000000000, BlockByNumber 100, CancelRequest,
                    PrintBlockInfo 100 100,
                    TickerWait, WithTimeout 10000000000, BlockByNumber 101, CancelRequest,
                    PrintBlockInfo 101 101, LogCancelled 101, TickerStop])"
    by (simp add: fetchBlockRange_def range_loop.simps fetchBlockWithRetry_def retry_loop.simps
          serving_def attempt_call_def)
  from C5_cancel_stops_scan [where client = serving and ctxDone = "\<lambda>num. num = 101"
      and start = 100 and end' = 104 and c = 101 and rateLimit = 200000000
      and block = 101 and evs = "[WithTimeout 10000000000, BlockByNumber 101, CancelRequest]",
      OF h1 h2 h3 h4 h5 h6]
  obtain pre where
    p: "fetchBlockRange serving (\<lambda>num. num = 101) 100 104 200000000
       = Some (Inr (pre @ TickerWait # [WithTimeout 10000000000, BlockByNumber 101, CancelRequest]
                      @ [PrintBlockInfo 101 101, LogCancelled 101, TickerStop]))"
    and s: "summary_lines (pre @ TickerWait # [WithTimeout 10000000000, BlockByNumber 101, CancelRequest]
                      @ [PrintBlockInfo 101 101, LogCancelled 101, TickerStop]) = []"
    and a: "\<forall>n :: 64 word. 101 < n \<longrightarrow>
       attempts_at (pre @ TickerWait # [WithTimeout 10000000000, BlockByNumber 101, CancelRequest]
                      @ [PrintBlockInfo 101 101, LogCancelled 101, TickerStop]) (uint n) = 0"
    by blast
  from a lt have a102:
    "attempts_at (pre @ TickerWait # [WithTimeout 10000000000, BlockByNumber 101, CancelRequest]
                    @ [PrintBlockInfo 101 101, LogCancelled 101, TickerStop])
       (uint (102 :: 64 word)) = 0"
    by blast
  have t: "trace_of (fetchBlockRange serving (\<lambda>num. num = 101) 100 104 200000000)
             = pre @ TickerWait # [WithTimeout 10000000000, BlockByNumber 101, CancelRequest]
                 @ [PrintBlockInfo 101 101, LogCancelled 101, TickerStop]"
    by (simp only: p trace_of_def option.case sum.case)
  have s': "summary_lines (trace_of (fetchBlockRange serving (\<lambda>num. num = 101) 100 104 200000000))
              = []"
    by (simp only: t s)
  have a': "attempts_at (trace_of (fetchBlockRange serving (\<lambda>num. num = 101) 100 104 200000000))
              (uint (102 :: 64 word)) = 0"
    by (simp only: t a102)
  from h4 run s' a' show ?thesis by (intro conjI)
qed

end
